theory Spec2Isabelle
  imports Main "HOL-Library.AList"
begin

section \<open>Python strings\<close>

text \<open>
  A Python \<open>str\<close> is a sequence of Unicode code points, so it is modelled as a list
  of code points; \<open>u ''abc''\<close> is the literal \<open>"abc"\<close>.
\<close>

type_synonym str = "nat list"

definition u :: "string \<Rightarrow> str" where
  "u s = map of_char s"

text \<open>
  \<open>str.isspace\<close> on one code point: the code points CPython's
  \<open>Py_UNICODE_ISSPACE\<close> accepts, which are the ones \<open>str.strip()\<close> removes.
\<close>

definition isspace :: "nat \<Rightarrow> bool" where
  "isspace c \<longleftrightarrow>
     (9 \<le> c \<and> c \<le> 13) \<or> (28 \<le> c \<and> c \<le> 32) \<or> c = 133 \<or> c = 160 \<or> c = 5760 \<or>
     (8192 \<le> c \<and> c \<le> 8202) \<or> c = 8232 \<or> c = 8233 \<or> c = 8239 \<or> c = 8287 \<or> c = 12288"

definition lstrip :: "str \<Rightarrow> str" where
  "lstrip s = dropWhile isspace s"

definition rstrip :: "str \<Rightarrow> str" where
  "rstrip s = rev (dropWhile isspace (rev s))"

definition strip :: "str \<Rightarrow> str" where
  "strip s = rstrip (lstrip s)"

section \<open>The violation record\<close>

text \<open>
  Modelled from the spec: the record \<open>Violation\<close> of \<open>riff/violation.py\<close>, which
  is not among the sources. Its fields are those of the data model of the specification,
  under the names that the test of \<open>parse_ruff_output\<close> gives them; the path is kept as
  the text of the file name.
\<close>

record Violation =
  error_code :: str
  path :: str
  line_start :: int
  message :: str
  linter_name :: str
  is_autofixable :: bool
  fix_suggestion :: "str option"
  line_end :: int
  column_start :: int
  column_end :: int

section \<open>The parsed diff (unidiff)\<close>

text \<open>
  What \<open>unidiff\<close> hands to the program: a \<open>PatchSet\<close> is a list of
  \<open>PatchedFile\<close>s, a \<open>PatchedFile\<close> is a list of hunks with a path, a hunk is a
  list of lines, and a line has a type, its text and its line numbers on either side
  (\<open>None\<close> where the side has no such line).
\<close>

datatype line_type = ADDED | REMOVED | CONTEXT | EMPTY | NO_NEWLINE

record line =
  line_type :: line_type
  "value" :: str
  source_line_no :: "int option"
  target_line_no :: "int option"

definition is_added :: "line \<Rightarrow> bool" where
  "is_added l \<longleftrightarrow> line_type l = ADDED"

definition is_removed :: "line \<Rightarrow> bool" where
  "is_removed l \<longleftrightarrow> line_type l = REMOVED"

definition is_context :: "line \<Rightarrow> bool" where
  "is_context l \<longleftrightarrow> line_type l = CONTEXT"

type_synonym hunk = "line list"

record patched_file =
  path :: str
  hunks :: "hunk list"

section \<open>The changed lines of one file\<close>

text \<open>
  \<^verbatim>\<open>
  return {
      line.target_line_no
      for hunk in patched_file
      for line in hunk
      if line.is_added and line.value.strip() and line.target_line_no is not None
  }
  \<close>
  A string is true when it is not empty.
\<close>

definition parse_modified_lines :: "patched_file \<Rightarrow> int set" where
  "parse_modified_lines patched_file =
     set (List.map_filter
       (\<lambda>l. if is_added l \<and> strip (value l) \<noteq> [] then target_line_no l else None)
       (concat (hunks patched_file)))"

text \<open>
  The changed-line set in the words of the specification: the target-side line numbers
  of the line entries, across all hunks, that are tagged added, whose content stripped
  of surrounding whitespace is not empty, and that carry a target line number.
\<close>

definition changed_line_set :: "patched_file \<Rightarrow> int set" where
  "changed_line_set pf =
     {n. \<exists>h \<in> set (hunks pf). \<exists>l \<in> set h.
           is_added l \<and> strip (value l) \<noteq> [] \<and> target_line_no l = Some n}"

definition whitespace_only :: "str \<Rightarrow> bool" where
  "whitespace_only s \<longleftrightarrow> list_all isspace s"

section \<open>The JSON decoder\<close>

text \<open>
  \<open>json.loads\<close> of the standard library, as the program uses it (no hooks, strict).
  It returns the Python value of the document, or fails with \<open>JSONDecodeError\<close>
  (\<open>None\<close> here). A float keeps the text of its literal instead of a value. Two
  limits of the interpreter are outside the model: the recursion limit on deeply nested
  documents and the limit on the number of digits of an integer.
\<close>

text \<open>
  The Python values a document decodes to: \<open>None\<close>, \<open>bool\<close>, \<open>int\<close>,
  \<open>float\<close>, \<open>str\<close>, \<open>list\<close> and \<open>dict\<close> (keys in insertion order).
\<close>

datatype json =
    PyNone
  | PyBool bool
  | PyInt int
  | PyFloat str
  | PyStr str
  | PyList "json list"
  | PyDict "(str \<times> json) list"

text \<open>\<open>WHITESPACE = re.compile(r'[ \t\n\r]*')\<close>: what the decoder skips.\<close>

definition json_ws :: "nat \<Rightarrow> bool" where
  "json_ws c \<longleftrightarrow> c = 32 \<or> c = 9 \<or> c = 10 \<or> c = 13"

definition skip_ws :: "str \<Rightarrow> str" where
  "skip_ws s = dropWhile json_ws s"

text \<open>
  The four hexadecimal digits of a \<open>\uXXXX\<close> escape, and the one-letter escapes
  (\<open>BACKSLASH\<close>: quote, backslash, slash, \<open>b f n r t\<close>).
\<close>

definition hexval :: "nat \<Rightarrow> nat option" where
  "hexval c =
     (if 48 \<le> c \<and> c \<le> 57 then Some (c - 48)
      else if 97 \<le> c \<and> c \<le> 102 then Some (c - 87)
      else if 65 \<le> c \<and> c \<le> 70 then Some (c - 55)
      else None)"

fun decode_uXXXX :: "str \<Rightarrow> nat option" where
  "decode_uXXXX [a, b, c, d] =
     (case (hexval a, hexval b, hexval c, hexval d) of
        (Some w, Some x, Some y, Some z) \<Rightarrow> Some (((w * 16 + x) * 16 + y) * 16 + z)
      | _ \<Rightarrow> None)"
| "decode_uXXXX _ = None"

definition BACKSLASH :: "nat \<Rightarrow> nat option" where
  "BACKSLASH e =
     (if e = 34 then Some 34 else if e = 92 then Some 92 else if e = 47 then Some 47
      else if e = 98 then Some 8 else if e = 102 then Some 12 else if e = 110 then Some 10
      else if e = 114 then Some 13 else if e = 116 then Some 9 else None)"

definition prepend :: "nat \<Rightarrow> (str \<times> str) option \<Rightarrow> (str \<times> str) option" where
  "prepend c r = map_option (\<lambda>(t, rest). (c # t, rest)) r"

text \<open>
  \<open>scanstring\<close>, from the character after the opening quote: the text of the
  string and what follows its closing quote. A control character (below 32) is
  refused; a high surrogate escape followed by a low surrogate escape is one code
  point.
\<close>

fun scanstring :: "str \<Rightarrow> (str \<times> str) option" where
  "scanstring [] = None"
| "scanstring (c # cs) =
     (if c = 34 then Some ([], cs)
      else if c = 92 then
        (case cs of
           [] \<Rightarrow> None
         | e # es \<Rightarrow>
             if e = 117 then
               (case decode_uXXXX (take 4 es) of
                  None \<Rightarrow> None
                | Some uni \<Rightarrow>
                    if 55296 \<le> uni \<and> uni \<le> 56319 \<and> take 2 (drop 4 es) = [92, 117] then
                      (case decode_uXXXX (take 4 (drop 6 es)) of
                         None \<Rightarrow> None
                       | Some uni2 \<Rightarrow>
                           if 56320 \<le> uni2 \<and> uni2 \<le> 57343
                           then prepend (65536 + ((uni - 55296) * 1024 + (uni2 - 56320)))
                                  (scanstring (drop 10 es))
                           else prepend uni (scanstring (drop 4 es)))
                    else prepend uni (scanstring (drop 4 es)))
             else
               (case BACKSLASH e of
                  None \<Rightarrow> None
                | Some ch \<Rightarrow> prepend ch (scanstring es)))
      else if c < 32 then None
      else prepend c (scanstring cs))"

text \<open>A string takes at least its closing quote.\<close>

lemma scanstring_length: "scanstring s = Some (t, r) \<Longrightarrow> length r < length s"
proof (induction s arbitrary: t r rule: scanstring.induct)
  case 1
  then show ?case by simp
next
  case (2 c cs)
  then show ?case
    by (auto simp: prepend_def split: if_splits list.splits option.splits) fastforce+
qed

text \<open>
  \<open>NUMBER_RE = (-?(?:0|[1-9][0-9]*))(\.[0-9]+)?([eE][-+]?[0-9]+)?\<close>: the integer
  part, then the optional fraction and exponent, each taken only when complete. With a
  fraction or an exponent the number is a float, otherwise \<open>int(integer)\<close>.
\<close>

definition isdigit :: "nat \<Rightarrow> bool" where
  "isdigit c \<longleftrightarrow> 48 \<le> c \<and> c \<le> 57"

definition match_integer :: "str \<Rightarrow> (str \<times> str) option" where
  "match_integer s =
     (let (sign, t) = (case s of [] \<Rightarrow> ([], s) | c # cs \<Rightarrow> if c = 45 then ([c], cs) else ([], s))
      in case t of
           [] \<Rightarrow> None
         | d # ds \<Rightarrow>
             if d = 48 then Some (sign @ [d], ds)
             else if 49 \<le> d \<and> d \<le> 57
               then Some (sign @ d # takeWhile isdigit ds, dropWhile isdigit ds)
             else None)"

definition match_frac :: "str \<Rightarrow> str \<times> str" where
  "match_frac s =
     (case s of
        [] \<Rightarrow> ([], s)
      | c # cs \<Rightarrow>
          if c = 46 \<and> takeWhile isdigit cs \<noteq> []
          then (c # takeWhile isdigit cs, dropWhile isdigit cs)
          else ([], s))"

definition match_exp :: "str \<Rightarrow> str \<times> str" where
  "match_exp s =
     (case s of
        [] \<Rightarrow> ([], s)
      | c # cs \<Rightarrow>
          if c = 101 \<or> c = 69 then
            (let (sign, t) = (case cs of [] \<Rightarrow> ([], cs)
                              | d # ds \<Rightarrow> if d = 45 \<or> d = 43 then ([d], ds) else ([], cs))
             in if takeWhile isdigit t \<noteq> []
                then (c # sign @ takeWhile isdigit t, dropWhile isdigit t)
                else ([], s))
          else ([], s))"

definition parse_int :: "str \<Rightarrow> int" where
  "parse_int s =
     (case s of
        [] \<Rightarrow> 0
      | c # cs \<Rightarrow>
          if c = 45 then - int (foldl (\<lambda>a d. a * 10 + (d - 48)) 0 cs)
          else int (foldl (\<lambda>a d. a * 10 + (d - 48)) 0 s))"

definition match_number :: "str \<Rightarrow> (json \<times> str) option" where
  "match_number s =
     (case match_integer s of
        None \<Rightarrow> None
      | Some (integer, r1) \<Rightarrow>
          let (frac, r2) = match_frac r1; (exp, r3) = match_exp r2
          in if frac \<noteq> [] \<or> exp \<noteq> [] then Some (PyFloat (integer @ frac @ exp), r3)
             else Some (PyInt (parse_int integer), r3))"

text \<open>\<open>dict(pairs)\<close>: a later pair with the same key replaces the value.\<close>

definition dict :: "(str \<times> json) list \<Rightarrow> (str \<times> json) list" where
  "dict pairs = foldl (\<lambda>d (k, v). AList.update k v d) [] pairs"

lemma skip_ws_length: "length (skip_ws s) \<le> length s"
  by (simp add: skip_ws_def length_dropWhile_le)

lemma skip_ws_Cons_length: "skip_ws s = d # ds \<Longrightarrow> length ds < length s"
  using skip_ws_length [of s] by simp

text \<open>
  \<open>scan_once\<close> reads one value at the head of the text and returns it with the rest
  of the text. \<open>JSONArray_items\<close> is the loop of \<open>JSONArray\<close> and starts at a
  value; \<open>JSONObject_items\<close> is the loop of \<open>JSONObject\<close> and starts after the
  opening quote of a key. After a value each of them goes on only in what the value left
  (\<open>length r < length s\<close>), which holds for every value that \<open>scan_once\<close> returns
  (\<open>scan_lengths\<close> below) and makes the recursion terminate.
\<close>

function (sequential) scan_once :: "str \<Rightarrow> (json \<times> str) option"
  and JSONArray_items :: "str \<Rightarrow> (json list \<times> str) option"
  and JSONObject_items :: "str \<Rightarrow> ((str \<times> json) list \<times> str) option"
where
  "scan_once [] = None"
| "scan_once (c # cs) =
     (if c = 34 then map_option (\<lambda>(t, r). (PyStr t, r)) (scanstring cs)
      else if c = 123 then
        (case skip_ws cs of
           [] \<Rightarrow> None
         | d # ds \<Rightarrow>
             if d = 125 then Some (PyDict [], ds)
             else if d = 34
               then map_option (\<lambda>(pairs, r). (PyDict (dict pairs), r)) (JSONObject_items ds)
             else None)
      else if c = 91 then
        (case skip_ws cs of
           [] \<Rightarrow> None
         | d # ds \<Rightarrow>
             if d = 93 then Some (PyList [], ds)
             else map_option (\<lambda>(values, r). (PyList values, r)) (JSONArray_items (d # ds)))
      else if c = 110 \<and> take 3 cs = [117, 108, 108] then Some (PyNone, drop 3 cs)
      else if c = 116 \<and> take 3 cs = [114, 117, 101] then Some (PyBool True, drop 3 cs)
      else if c = 102 \<and> take 4 cs = [97, 108, 115, 101] then Some (PyBool False, drop 4 cs)
      else
        (case match_number (c # cs) of
           Some res \<Rightarrow> Some res
         | None \<Rightarrow>
             if c = 78 \<and> take 2 cs = [97, 78] then Some (PyFloat (c # take 2 cs), drop 2 cs)
             else if c = 73 \<and> take 7 cs = [110, 102, 105, 110, 105, 116, 121]
               then Some (PyFloat (c # take 7 cs), drop 7 cs)
             else if c = 45 \<and> take 8 cs = [73, 110, 102, 105, 110, 105, 116, 121]
               then Some (PyFloat (c # take 8 cs), drop 8 cs)
             else None))"
| "JSONArray_items s =
     (case scan_once s of
        None \<Rightarrow> None
      | Some (v, r) \<Rightarrow>
          if length r < length s then
            (case skip_ws r of
               [] \<Rightarrow> None
             | d # ds \<Rightarrow>
                 if d = 93 then Some ([v], ds)
                 else if d = 44 then
                   (case JSONArray_items (skip_ws ds) of
                      None \<Rightarrow> None
                    | Some (values, r') \<Rightarrow> Some (v # values, r'))
                 else None)
          else None)"
| "JSONObject_items s =
     (case scanstring s of
        None \<Rightarrow> None
      | Some (key, r) \<Rightarrow>
          (case skip_ws r of
             [] \<Rightarrow> None
           | d # ds \<Rightarrow>
               if d = 58 then
                 (case scan_once (skip_ws ds) of
                    None \<Rightarrow> None
                  | Some (v, r1) \<Rightarrow>
                      if length r1 < length (skip_ws ds) then
                        (case skip_ws r1 of
                           [] \<Rightarrow> None
                         | d1 # ds1 \<Rightarrow>
                             if d1 = 125 then Some ([(key, v)], ds1)
                             else if d1 = 44 then
                               (case skip_ws ds1 of
                                  [] \<Rightarrow> None
                                | d2 # ds2 \<Rightarrow>
                                    if d2 = 34 then
                                      (case JSONObject_items ds2 of
                                         None \<Rightarrow> None
                                       | Some (pairs, r') \<Rightarrow> Some ((key, v) # pairs, r'))
                                    else None)
                             else None)
                      else None)
               else None))"
  by pat_completeness auto
termination
proof (relation "measure (\<lambda>x. case x of
          Inl s \<Rightarrow> 2 * length s
        | Inr (Inl s) \<Rightarrow> 2 * length s + 1
        | Inr (Inr s) \<Rightarrow> 2 * length s + 1)", goal_cases)
  case 1
  then show ?case by simp
next
  case (2 c cs d ds)
  then show ?case using skip_ws_Cons_length [of cs d ds] by simp
next
  case (3 c cs d ds)
  then show ?case using skip_ws_length [of cs] by simp
next
  case (4 s)
  then show ?case by simp
next
  case (5 s x2 v r d ds)
  then show ?case
    using skip_ws_Cons_length [of r d ds] skip_ws_length [of ds] by simp
next
  case (6 s x2 key r d ds)
  then show ?case
    using scanstring_length [of s key r] skip_ws_Cons_length [of r d ds] skip_ws_length [of ds]
    by simp
next
  case (7 s x2 key r d ds x2a v r1 d1 ds1 d2 ds2)
  then show ?case
    using scanstring_length [of s key r] skip_ws_Cons_length [of r d ds] skip_ws_length [of ds]
      skip_ws_Cons_length [of r1 d1 ds1] skip_ws_Cons_length [of ds1 d2 ds2]
    by simp
qed

declare JSONArray_items.simps [simp del] JSONObject_items.simps [simp del]

text \<open>
  \<open>json.loads\<close>: leading whitespace, one value, trailing whitespace, and nothing
  else (\<open>Extra data\<close>).
\<close>

definition json_loads :: "str \<Rightarrow> json option" where
  "json_loads s =
     (case scan_once (skip_ws s) of
        None \<Rightarrow> None
      | Some (obj, r) \<Rightarrow> if skip_ws r = [] then Some obj else None)"

section \<open>Exceptions, log records and external calls\<close>

text \<open>
  Every \<open>raise\<close> is a value: a function that can raise returns \<open>exn + 'a\<close>, with
  \<open>Inl\<close> the exception. \<open>Exit c s\<close> is \<open>typer.Exit(c)\<close>, with \<open>s\<close> true when it was
  raised \<open>from None\<close> (the exception being handled is not chained to it, so no
  traceback of it is shown). \<open>LibraryError\<close> stands for any other exception that an
  external library raises.
\<close>

datatype exn =
    ValueError str
  | TypeError
  | JSONDecodeError
  | InvalidGitRepositoryError
  | Violation_parse_error
  | Exit (exit_code: int) (suppress_context: bool)
  | LibraryError str

datatype level = DEBUG | WARNING | ERROR

text \<open>
  The message of a log call. The formatted parts that depend on \<open>repr\<close> or
  \<open>pprint.pformat\<close> keep their arguments instead of the rendered text.
\<close>

datatype msg =
    Text str
  | Ruff_stdout "str option"
  | Parsed_count nat
  | Modified_lines "(str \<times> int list) list"

record git_diff_call =
  args :: "str list"
  kwargs :: "(str \<times> bool) list"

text \<open>
  What a call does besides returning: it looks the repository up, runs
  \<open>git diff\<close>, or writes a log record.
\<close>

datatype event =
    Repo_lookup
  | Git_diff git_diff_call
  | Log level msg

fun diff_calls :: "event list \<Rightarrow> git_diff_call list" where
  "diff_calls [] = []"
| "diff_calls (Git_diff c # es) = c # diff_calls es"
| "diff_calls (_ # es) = diff_calls es"


section \<open>The environment\<close>

text \<open>
  The libraries the program calls are parameters: GitPython
  (\<open>Repo(search_parent_directories=True).git_dir\<close>, which raises
  \<open>InvalidGitRepositoryError\<close> when no repository is found, and \<open>repo.git.diff\<close>),
  unidiff (\<open>PatchSet\<close>) and pathlib (\<open>Path(...)\<close>, \<open>.parent\<close>, \<open>/\<close>,
  \<open>.resolve()\<close>, \<open>str(...)\<close>, \<open>Path.cwd()\<close>) over a type \<open>'p\<close> of paths.
\<close>

record 'p env =
  Repo_git_dir :: "exn + str"
  git_diff :: "git_diff_call \<Rightarrow> exn + str"
  PatchSet :: "str \<Rightarrow> exn + patched_file list"
  Path :: "str \<Rightarrow> 'p"
  parent :: "'p \<Rightarrow> 'p"
  joinpath :: "'p \<Rightarrow> str \<Rightarrow> 'p"
  resolve :: "'p \<Rightarrow> 'p"
  path_str :: "'p \<Rightarrow> str"
  cwd :: "'p"

section \<open>The comparison modes\<close>

datatype DiffMode = BRANCH | UNSTAGED | STAGED | REF

fun DiffMode_value :: "DiffMode \<Rightarrow> str" where
  "DiffMode_value BRANCH = u ''branch''"
| "DiffMode_value UNSTAGED = u ''unstaged''"
| "DiffMode_value STAGED = u ''staged''"
| "DiffMode_value REF = u ''ref''"


text \<open>
  \<^verbatim>\<open>
  diff_args = []
  if mode == DiffMode.BRANCH:
      if not base_branch:
          msg = "base_branch is required for BRANCH mode"
          raise ValueError(msg)
      diff_args = [base_branch]
  elif mode == DiffMode.UNSTAGED:
      diff_args = []
  elif mode == DiffMode.STAGED:
      diff_args = ["--cached"]
  elif mode == DiffMode.REF:
      if not diff_ref:
          msg = "diff_ref is required for REF mode"
          raise ValueError(msg)
      diff_args = [diff_ref]
  \<close>
\<close>

fun diff_args :: "DiffMode \<Rightarrow> str option \<Rightarrow> str option \<Rightarrow> exn + str list" where
  "diff_args BRANCH base_branch diff_ref =
     (case base_branch of
        None \<Rightarrow> Inl (ValueError (u ''base_branch is required for BRANCH mode''))
      | Some b \<Rightarrow>
          if b = [] then Inl (ValueError (u ''base_branch is required for BRANCH mode''))
          else Inr [b])"
| "diff_args UNSTAGED base_branch diff_ref = Inr []"
| "diff_args STAGED base_branch diff_ref = Inr [u ''--cached'']"
| "diff_args REF base_branch diff_ref =
     (case diff_ref of
        None \<Rightarrow> Inl (ValueError (u ''diff_ref is required for REF mode''))
      | Some r \<Rightarrow>
          if r = [] then Inl (ValueError (u ''diff_ref is required for REF mode''))
          else Inr [r])"

text \<open>
  \<^verbatim>\<open>
  diff_output = repo.git.diff(*diff_args, ignore_blank_lines=True, ignore_space_at_eol=True)
  \<close>
\<close>

definition diff_kwargs :: "(str \<times> bool) list" where
  "diff_kwargs = [(u ''ignore_blank_lines'', True), (u ''ignore_space_at_eol'', True)]"

definition diff_call :: "str list \<Rightarrow> git_diff_call" where
  "diff_call a = \<lparr>args = a, kwargs = diff_kwargs\<rparr>"

section \<open>The changed-lines map\<close>

text \<open>
  A \<open>dict\<close> is an association list with distinct keys in insertion order; storing
  under a key that is present replaces its value in place (\<open>AList.update\<close>).
  \<^verbatim>\<open>
  result = {
      (repo_root / patched_file.path): parse_modified_lines(patched_file)
      for patched_file in PatchSet(diff_output)
  }
  \<close>
\<close>

definition result_map :: "'p env \<Rightarrow> 'p \<Rightarrow> patched_file list \<Rightarrow> ('p \<times> int set) list" where
  "result_map env repo_root files =
     foldl (\<lambda>d patched_file.
              AList.update (joinpath env repo_root (path patched_file))
                (parse_modified_lines patched_file) d)
       [] files"

text \<open>
  \<^verbatim>\<open>
  {str(file): sorted(changed_lines) for file, changed_lines in result.items()}
  \<close>
\<close>

definition modified_lines_msg :: "'p env \<Rightarrow> ('p \<times> int set) list \<Rightarrow> (str \<times> int list) list" where
  "modified_lines_msg env result =
     foldl (\<lambda>d (file, changed_lines).
              AList.update (path_str env file) (sorted_list_of_set changed_lines) d)
       [] result"

definition no_changes_msg :: "'p env \<Rightarrow> 'p \<Rightarrow> DiffMode \<Rightarrow> str" where
  "no_changes_msg env repo_root mode =
     u ''could not find any git-modified lines in '' @ path_str env repo_root
     @ u '': Mode='' @ DiffMode_value mode @ u '', no changes detected''"

text \<open>
  \<open>parse_git_modified_lines\<close>, in the order of the source: the repository lookup, the
  arguments of the mode (which may raise), the diff, the parsing of its output, the
  map, and one log record. The first component is what the call did, in order.
\<close>

definition parse_git_modified_lines ::
  "'p env \<Rightarrow> DiffMode \<Rightarrow> str option \<Rightarrow> str option \<Rightarrow> event list \<times> (exn + ('p \<times> int set) list)"
where
  "parse_git_modified_lines env mode base_branch diff_ref =
     (case Repo_git_dir env of
        Inl e \<Rightarrow> ([Repo_lookup], Inl e)
      | Inr git_dir \<Rightarrow>
          let repo_root = parent env (Path env git_dir) in
          (case diff_args mode base_branch diff_ref of
             Inl e \<Rightarrow> ([Repo_lookup], Inl e)
           | Inr a \<Rightarrow>
               (case git_diff env (diff_call a) of
                  Inl e \<Rightarrow> ([Repo_lookup, Git_diff (diff_call a)], Inl e)
                | Inr diff_output \<Rightarrow>
                    (case PatchSet env diff_output of
                       Inl e \<Rightarrow> ([Repo_lookup, Git_diff (diff_call a)], Inl e)
                     | Inr files \<Rightarrow>
                         let result = result_map env repo_root files in
                         ([Repo_lookup, Git_diff (diff_call a),
                           (if result \<noteq> []
                            then Log DEBUG (Modified_lines (modified_lines_msg env result))
                            else Log WARNING (Text (no_changes_msg env repo_root mode)))],
                          Inr result)))))"

section \<open>The repository path\<close>

text \<open>
  \<^verbatim>\<open>
  try:
      return Path(git.Repo(search_parent_directories=True).git_dir).parent.resolve()
  except git.exc.InvalidGitRepositoryError:
      logger.error(f"Cannot detect repository in {Path.cwd()}")
      raise typer.Exit(1) from None  # no need for whole stack trace
  \<close>
\<close>

definition validate_repo_path :: "'p env \<Rightarrow> event list \<times> (exn + 'p)" where
  "validate_repo_path env =
     (case Repo_git_dir env of
        Inr git_dir \<Rightarrow> ([Repo_lookup], Inr (resolve env (parent env (Path env git_dir))))
      | Inl e \<Rightarrow>
          if e = InvalidGitRepositoryError
          then ([Repo_lookup,
                 Log ERROR (Text (u ''Cannot detect repository in '' @ path_str env (cwd env)))],
                Inl (Exit 1 True))
          else ([Repo_lookup], Inl e))"

section \<open>The violation parser\<close>

definition get_str :: "(str \<times> json) list \<Rightarrow> str \<Rightarrow> str option" where
  "get_str d k = (case map_of d k of Some (PyStr s) \<Rightarrow> Some s | _ \<Rightarrow> None)"

definition get_int :: "(str \<times> json) list \<Rightarrow> str \<Rightarrow> int option" where
  "get_int d k = (case map_of d k of Some (PyInt i) \<Rightarrow> Some i | _ \<Rightarrow> None)"

definition get_dict :: "(str \<times> json) list \<Rightarrow> str \<Rightarrow> (str \<times> json) list option" where
  "get_dict d k = (case map_of d k of Some (PyDict obj) \<Rightarrow> Some obj | _ \<Rightarrow> None)"

text \<open>
  Modelled from the spec: \<open>Violation.parse\<close> of \<open>riff/violation.py\<close>, which is not
  among the sources. Each JSON object is mapped field for field: its \<open>code\<close>,
  \<open>filename\<close>, the \<open>row\<close> and \<open>column\<close> of its \<open>location\<close> and of its
  \<open>end_location\<close>, its \<open>message\<close>, the linter name fixed to \<open>Ruff\<close>, the
  autofixability flag from the presence of a nested \<open>fix\<close> object, and the fix
  suggestion from that object's \<open>message\<close> if present. The specification says
  nothing of a value that is not such an object: there the parse fails (\<open>None\<close>).
\<close>

definition Violation_parse :: "json \<Rightarrow> Violation option" where
  "Violation_parse raw =
     (case raw of
        PyDict d \<Rightarrow>
          Option.bind (get_str d (u ''code'')) (\<lambda>code.
          Option.bind (get_str d (u ''filename'')) (\<lambda>filename.
          Option.bind (get_dict d (u ''location'')) (\<lambda>location.
          Option.bind (get_dict d (u ''end_location'')) (\<lambda>end_location.
          Option.bind (get_int location (u ''row'')) (\<lambda>row.
          Option.bind (get_int location (u ''column'')) (\<lambda>column.
          Option.bind (get_int end_location (u ''row'')) (\<lambda>end_row.
          Option.bind (get_int end_location (u ''column'')) (\<lambda>end_column.
          Option.bind (get_str d (u ''message'')) (\<lambda>message.
            Some \<lparr>error_code = code,
                  Violation.path = filename,
                  line_start = row,
                  message = message,
                  linter_name = u ''Ruff'',
                  is_autofixable = (get_dict d (u ''fix'') \<noteq> None),
                  fix_suggestion = Option.bind (get_dict d (u ''fix'')) (\<lambda>fix. get_str fix (u ''message'')),
                  line_end = end_row,
                  column_start = column,
                  column_end = end_column\<rparr>)))))))))
      | _ \<Rightarrow> None)"

text \<open>
  What iterating over a decoded value yields: the items of a list, the keys of a
  dict, the characters of a string; any other value is not iterable
  (\<open>TypeError\<close>).
\<close>

fun iter :: "json \<Rightarrow> json list option" where
  "iter (PyList xs) = Some xs"
| "iter (PyDict d) = Some (map (\<lambda>(k, v). PyStr k) d)"
| "iter (PyStr s) = Some (map (\<lambda>c. PyStr [c]) s)"
| "iter _ = None"

text \<open>
  \<open>tuple(map(Violation.parse, raw_violations))\<close>: every item is parsed, in order,
  and the first failure ends the call.
\<close>

fun parse_all :: "json list \<Rightarrow> Violation list option" where
  "parse_all [] = Some []"
| "parse_all (x # xs) =
     (case Violation_parse x of
        None \<Rightarrow> None
      | Some v \<Rightarrow> (case parse_all xs of None \<Rightarrow> None | Some vs \<Rightarrow> Some (v # vs)))"

text \<open>
  \<^verbatim>\<open>
  logger.debug(f"{ruff_stdout=}")
  if not ruff_stdout:
      logger.debug("No ruff output, assuming no violations")
      return ()
  try:
      raw_violations = json.loads(ruff_stdout)
  except json.JSONDecodeError:
      logger.error("Could not parse Ruff output as JSON")
      raise
  violations = tuple(map(Violation.parse, raw_violations))
  logger.debug(f"parsed {len(violations)} ruff violations")
  return violations
  \<close>
  The argument is optional so that an absent output (\<open>None\<close>) is an input.
  \<open>Violation_parse_error\<close> is what \<open>Violation.parse\<close> raises on an item it cannot
  map.
\<close>

fun parse_ruff_output :: "str option \<Rightarrow> event list \<times> (exn + Violation list)" where
  "parse_ruff_output None =
     ([Log DEBUG (Ruff_stdout None),
       Log DEBUG (Text (u ''No ruff output, assuming no violations''))],
      Inr [])"
| "parse_ruff_output (Some ruff_stdout) =
     (if ruff_stdout = [] then
        ([Log DEBUG (Ruff_stdout (Some ruff_stdout)),
          Log DEBUG (Text (u ''No ruff output, assuming no violations''))],
         Inr [])
      else
        (case json_loads ruff_stdout of
           None \<Rightarrow>
             ([Log DEBUG (Ruff_stdout (Some ruff_stdout)),
               Log ERROR (Text (u ''Could not parse Ruff output as JSON''))],
              Inl JSONDecodeError)
         | Some raw_violations \<Rightarrow>
             (case iter raw_violations of
                None \<Rightarrow> ([Log DEBUG (Ruff_stdout (Some ruff_stdout))], Inl TypeError)
              | Some items \<Rightarrow>
                  (case parse_all items of
                     None \<Rightarrow>
                       ([Log DEBUG (Ruff_stdout (Some ruff_stdout))], Inl Violation_parse_error)
                   | Some violations \<Rightarrow>
                       ([Log DEBUG (Ruff_stdout (Some ruff_stdout)),
                         Log DEBUG (Parsed_count (length violations))],
                        Inr violations)))))"

section \<open>A concrete patch\<close>

text \<open>
  One file with one hunk: a context line, a removed line, an added line with content
  and an added line that is only a newline.
\<close>

definition example_hunk :: hunk where
  "example_hunk =
     [\<lparr>line_type = CONTEXT, value = u ''x = 1'' @ [10],
        source_line_no = Some 1, target_line_no = Some 1\<rparr>,
      \<lparr>line_type = REMOVED, value = u ''y = 2'' @ [10],
        source_line_no = Some 2, target_line_no = None\<rparr>,
      \<lparr>line_type = ADDED, value = u ''y = 3'' @ [10],
        source_line_no = None, target_line_no = Some 2\<rparr>,
      \<lparr>line_type = ADDED, value = [10],
        source_line_no = None, target_line_no = Some 3\<rparr>]"

definition example_patch :: patched_file where
  "example_patch = \<lparr>path = u ''a.py'', hunks = [example_hunk]\<rparr>"

section \<open>Concrete environments\<close>

text \<open>
  Paths as strings: the parent drops the last component, joining puts a slash in
  between. The repository is at \<open>/repo\<close> and the diff holds the patch above.
\<close>

definition dirname :: "str \<Rightarrow> str" where
  "dirname p = rev (drop 1 (dropWhile (\<lambda>c. c \<noteq> 47) (rev p)))"

definition example_env :: "str env" where
  "example_env =
     \<lparr>Repo_git_dir = Inr (u ''/repo/.git''),
      git_diff = (\<lambda>c. Inr (u ''diff --git a/a.py b/a.py'')),
      PatchSet = (\<lambda>s. Inr [example_patch]),
      Path = (\<lambda>s. s),
      parent = dirname,
      joinpath = (\<lambda>r p. r @ [47] @ p),
      resolve = (\<lambda>p. p),
      path_str = (\<lambda>p. p),
      cwd = u ''/tmp''\<rparr>"

text \<open>The same with no repository above the working directory.\<close>

definition env_no_repo :: "str env" where
  "env_no_repo = example_env\<lparr>Repo_git_dir := Inl InvalidGitRepositoryError\<rparr>"



text \<open>The same with an empty diff.\<close>

definition env_empty_diff :: "str env" where
  "env_empty_diff = example_env\<lparr>git_diff := (\<lambda>c. Inr []), PatchSet := (\<lambda>s. Inr [])\<rparr>"

section \<open>Concrete lint reports\<close>







section \<open>Facts about stripping\<close>

lemma dropWhile_isspace_Nil: "dropWhile isspace s = [] \<longleftrightarrow> whitespace_only s"
  by (simp add: dropWhile_eq_Nil_conv whitespace_only_def list_all_iff)

lemma strip_empty_iff: "strip s = [] \<longleftrightarrow> whitespace_only s"
proof
  assume "whitespace_only s"
  then have "dropWhile isspace s = []"
    by (simp only: dropWhile_isspace_Nil)
  then show "strip s = []"
    by (simp only: strip_def rstrip_def lstrip_def rev.simps dropWhile.simps)
next
  assume "strip s = []"
  then have all: "\<forall>c \<in> set (dropWhile isspace s). isspace c"
    by (simp add: strip_def rstrip_def lstrip_def dropWhile_eq_Nil_conv)
  have "dropWhile isspace s = []"
  proof (cases "dropWhile isspace s")
    case Nil
    then show ?thesis .
  next
    case (Cons c cs)
    then have "\<not> isspace c"
      using hd_dropWhile [of isspace s] by simp
    moreover have "isspace c"
      using all Cons by simp
    ultimately show ?thesis by simp
  qed
  then show "whitespace_only s"
    by (simp only: dropWhile_isspace_Nil)
qed

lemma set_map_filter_conv: "set (List.map_filter f xs) = {y. \<exists>x \<in> set xs. f x = Some y}"
  by (induction xs) (auto simp: split: option.splits)

lemma parse_modified_lines_mem:
  "n \<in> parse_modified_lines pf \<longleftrightarrow>
     (\<exists>h \<in> set (hunks pf). \<exists>l \<in> set h.
        is_added l \<and> strip (value l) \<noteq> [] \<and> target_line_no l = Some n)"
proof -
  have "n \<in> parse_modified_lines pf \<longleftrightarrow>
      (\<exists>l \<in> set (concat (hunks pf)).
         (if is_added l \<and> strip (value l) \<noteq> [] then target_line_no l else None) = Some n)"
    by (simp add: parse_modified_lines_def set_map_filter_conv)
  also have "\<dots> \<longleftrightarrow> (\<exists>h \<in> set (hunks pf). \<exists>l \<in> set h.
        is_added l \<and> strip (value l) \<noteq> [] \<and> target_line_no l = Some n)"
    by (simp split: if_splits) blast
  finally show ?thesis .
qed

section \<open>Facts about the changed-lines map\<close>








section \<open>Facts about the JSON decoder\<close>

text \<open>
  Every value that the decoder reads takes at least one character, so the test on the
  lengths in \<open>JSONArray_items\<close> and \<open>JSONObject_items\<close> never fails.
\<close>

lemma match_integer_length: "match_integer s = Some (i, r) \<Longrightarrow> length r < length s"
  by (auto simp: match_integer_def Let_def split: list.splits if_splits
      intro: le_imp_less_Suc length_dropWhile_le less_SucI)

lemma match_frac_length: "match_frac s = (f, r) \<Longrightarrow> length r \<le> length s"
  by (auto simp: match_frac_def split: list.splits if_splits
      intro: le_SucI length_dropWhile_le)

lemma match_exp_length: "match_exp s = (e, r) \<Longrightarrow> length r \<le> length s"
  by (auto simp: match_exp_def Let_def split: list.splits if_splits
      intro: le_SucI length_dropWhile_le)

lemma match_number_length: "match_number s = Some (v, r) \<Longrightarrow> length r < length s"
proof -
  assume a: "match_number s = Some (v, r)"
  then obtain i r1 where i: "match_integer s = Some (i, r1)"
    by (auto simp: match_number_def split: option.splits)
  obtain f r2 where f: "match_frac r1 = (f, r2)" by (cases "match_frac r1")
  obtain e r3 where e: "match_exp r2 = (e, r3)" by (cases "match_exp r2")
  from a i f e have "r = r3"
    by (auto simp: match_number_def split: if_splits)
  with match_integer_length [OF i] match_frac_length [OF f] match_exp_length [OF e]
  show ?thesis by simp
qed

lemma scan_lengths:
  "(\<forall>v r. scan_once s = Some (v, r) \<longrightarrow> length r < length s)"
  "(\<forall>vs r. JSONArray_items s1 = Some (vs, r) \<longrightarrow> length r < length s1)"
  "(\<forall>kvs r. JSONObject_items s2 = Some (kvs, r) \<longrightarrow> length r < length s2)"
proof (induction s and s1 and s2 rule: scan_once_JSONArray_items_JSONObject_items.induct)
  case 1
  then show ?case by simp
next
  case (2 c cs)
  show ?case
  proof (intro allI impI)
    fix v r
    assume a: "scan_once (c # cs) = Some (v, r)"
    consider (str) "c = 34" | (obj) "c = 123" | (arr) "c = 91" | (other) "c \<noteq> 34" "c \<noteq> 123" "c \<noteq> 91"
      by blast
    then show "length r < length (c # cs)"
    proof cases
      case str
      with a show ?thesis
        by (auto dest: scanstring_length)
    next
      case obj
      with a show ?thesis
        using 2(1)
        by (auto split: list.splits if_splits dest!: skip_ws_Cons_length)
    next
      case arr
      with a show ?thesis
        using 2(2) skip_ws_length [of cs]
        by (auto split: list.splits if_splits dest!: skip_ws_Cons_length)
    next
      case other
      with a show ?thesis
        by (auto split: if_splits option.splits dest: match_number_length)
    qed
  qed
next
  case (3 s)
  show ?case
  proof (intro allI impI)
    fix vs r
    assume "JSONArray_items s = Some (vs, r)"
    then have a: "(case scan_once s of
        None \<Rightarrow> None
      | Some (v, r) \<Rightarrow>
          if length r < length s then
            (case skip_ws r of
               [] \<Rightarrow> None
             | d # ds \<Rightarrow>
                 if d = 93 then Some ([v], ds)
                 else if d = 44 then
                   (case JSONArray_items (skip_ws ds) of
                      None \<Rightarrow> None
                    | Some (values, r') \<Rightarrow> Some (v # values, r'))
                 else None)
          else None) = Some (vs, r)"
      by (simp add: JSONArray_items.simps [of s])
    then obtain v r0 where v: "scan_once s = Some (v, r0)" "length r0 < length s"
      by (auto split: option.splits if_splits)
    from a v obtain d ds where d: "skip_ws r0 = d # ds"
      by (auto split: list.splits)
    have ds: "length ds < length s"
      using skip_ws_Cons_length [OF d] v(2) by simp
    show "length r < length s"
    proof (cases "d = 93")
      case True
      with a v d ds show ?thesis by simp
    next
      case False
      with a v d have c: "d = 44"
        by (auto split: if_splits)
      with a v d False obtain vs' where "JSONArray_items (skip_ws ds) = Some (vs', r)"
        by (auto split: option.splits)
      with 3(2) [OF v(1) refl v(2) d False c] have "length r < length (skip_ws ds)"
        by blast
      with ds skip_ws_length [of ds] show ?thesis by simp
    qed
  qed
next
  case (4 s)
  show ?case
  proof (intro allI impI)
    fix kvs r
    assume "JSONObject_items s = Some (kvs, r)"
    then have a: "(case scanstring s of
        None \<Rightarrow> None
      | Some (key, r) \<Rightarrow>
          (case skip_ws r of
             [] \<Rightarrow> None
           | d # ds \<Rightarrow>
               if d = 58 then
                 (case scan_once (skip_ws ds) of
                    None \<Rightarrow> None
                  | Some (v, r1) \<Rightarrow>
                      if length r1 < length (skip_ws ds) then
                        (case skip_ws r1 of
                           [] \<Rightarrow> None
                         | d1 # ds1 \<Rightarrow>
                             if d1 = 125 then Some ([(key, v)], ds1)
                             else if d1 = 44 then
                               (case skip_ws ds1 of
                                  [] \<Rightarrow> None
                                | d2 # ds2 \<Rightarrow>
                                    if d2 = 34 then
                                      (case JSONObject_items ds2 of
                                         None \<Rightarrow> None
                                       | Some (pairs, r') \<Rightarrow> Some ((key, v) # pairs, r'))
                                    else None)
                             else None)
                      else None)
               else None)) = Some (kvs, r)"
      by (simp add: JSONObject_items.simps [of s])
    then obtain key r0 where k: "scanstring s = Some (key, r0)"
      by (auto split: option.splits)
    from a k obtain d ds where d: "skip_ws r0 = d # ds" "d = 58"
      by (auto split: list.splits if_splits)
    from a k d obtain v r1 where v: "scan_once (skip_ws ds) = Some (v, r1)"
        "length r1 < length (skip_ws ds)"
      by (auto split: option.splits if_splits)
    from a k d v obtain d1 ds1 where d1: "skip_ws r1 = d1 # ds1"
      by (auto split: list.splits)
    have ds1: "length ds1 < length s"
      using skip_ws_Cons_length [OF d1] v(2) skip_ws_length [of ds]
        skip_ws_Cons_length [OF d(1)] scanstring_length [OF k] by simp
    show "length r < length s"
    proof (cases "d1 = 125")
      case True
      with a k d v d1 ds1 show ?thesis by simp
    next
      case False
      with a k d v d1 have c: "d1 = 44"
        by (auto split: if_splits)
      with a k d v d1 False obtain d2 ds2 where d2: "skip_ws ds1 = d2 # ds2" "d2 = 34"
        by (auto split: list.splits if_splits)
      with a k d v d1 False c obtain kvs' where "JSONObject_items ds2 = Some (kvs', r)"
        by (auto split: option.splits)
      with 4(2) [OF k refl d(1) d(2) v(1) refl v(2) d1 False c d2] have "length r < length ds2"
        by blast
      with ds1 skip_ws_Cons_length [OF d2(1)] show ?thesis by simp
    qed
  qed
qed

text \<open>
  No whitespace character of Python starts a JSON value, and the decoder skips only
  four of them, so a text of whitespace is not a document.
\<close>

lemma isspace_cases:
  "isspace c \<Longrightarrow> c \<noteq> 34 \<and> c \<noteq> 123 \<and> c \<noteq> 91 \<and> c \<noteq> 110 \<and> c \<noteq> 116 \<and> c \<noteq> 102
     \<and> c \<noteq> 78 \<and> c \<noteq> 73 \<and> c \<noteq> 45 \<and> \<not> (48 \<le> c \<and> c \<le> 57)"
  unfolding isspace_def by arith

lemma match_integer_not_start:
  assumes "c \<noteq> 45" and "\<not> (48 \<le> c \<and> c \<le> 57)"
  shows "match_integer (c # cs) = None"
proof -
  from assms(2) have "c \<noteq> 48" "\<not> (49 \<le> c \<and> c \<le> 57)"
    by arith+
  with assms(1) show ?thesis
    by (simp add: match_integer_def)
qed

lemma match_number_not_start:
  assumes "c \<noteq> 45" and "\<not> (48 \<le> c \<and> c \<le> 57)"
  shows "match_number (c # cs) = None"
proof -
  have "match_integer (c # cs) = None"
    using assms by (rule match_integer_not_start)
  then show ?thesis
    by (simp add: match_number_def)
qed

lemma isspace_not_value_start:
  assumes "isspace c"
  shows "scan_once (c # cs) = None"
proof -
  from isspace_cases [OF assms]
  have ne: "c \<noteq> 34" "c \<noteq> 123" "c \<noteq> 91" "c \<noteq> 110" "c \<noteq> 116" "c \<noteq> 102"
      "c \<noteq> 78" "c \<noteq> 73" "c \<noteq> 45" "\<not> (48 \<le> c \<and> c \<le> 57)"
    by blast+
  from ne(9,10) have "match_number (c # cs) = None"
    by (rule match_number_not_start)
  with ne(1-9) show ?thesis
    by simp
qed

lemma json_loads_whitespace:
  assumes "whitespace_only s"
  shows "json_loads s = None"
proof (cases "skip_ws s")
  case Nil
  then show ?thesis by (simp add: json_loads_def)
next
  case (Cons c cs)
  then have "c \<in> set (dropWhile json_ws s)"
    by (simp add: skip_ws_def)
  then have "c \<in> set s"
    by (rule set_dropWhileD)
  with assms have "isspace c"
    by (simp add: whitespace_only_def list_all_iff)
  then have "scan_once (c # cs) = None"
    by (rule isspace_not_value_start)
  with Cons show ?thesis
    by (simp add: json_loads_def)
qed

text \<open>
  With that, the two functions are the iterations of the decoder as written, with no
  test on the lengths.
\<close>

lemma JSONArray_items_unfold:
  "JSONArray_items s =
     (case scan_once s of
        None \<Rightarrow> None
      | Some (v, r) \<Rightarrow>
          (case skip_ws r of
             [] \<Rightarrow> None
           | d # ds \<Rightarrow>
               if d = 93 then Some ([v], ds)
               else if d = 44 then
                 (case JSONArray_items (skip_ws ds) of
                    None \<Rightarrow> None
                  | Some (values, r') \<Rightarrow> Some (v # values, r'))
               else None))"
proof (cases "scan_once s")
  case None
  then show ?thesis
    by (simp add: JSONArray_items.simps [of s])
next
  case (Some res)
  obtain v r where res: "res = (v, r)"
    by (cases res)
  with Some scan_lengths(1) [of s] have "length r < length s"
    by simp
  with Some res show ?thesis
    by (simp add: JSONArray_items.simps [of s])
qed

lemma JSONObject_items_unfold:
  "JSONObject_items s =
     (case scanstring s of
        None \<Rightarrow> None
      | Some (key, r) \<Rightarrow>
          (case skip_ws r of
             [] \<Rightarrow> None
           | d # ds \<Rightarrow>
               if d = 58 then
                 (case scan_once (skip_ws ds) of
                    None \<Rightarrow> None
                  | Some (v, r1) \<Rightarrow>
                      (case skip_ws r1 of
                         [] \<Rightarrow> None
                       | d1 # ds1 \<Rightarrow>
                           if d1 = 125 then Some ([(key, v)], ds1)
                           else if d1 = 44 then
                             (case skip_ws ds1 of
                                [] \<Rightarrow> None
                              | d2 # ds2 \<Rightarrow>
                                  if d2 = 34 then
                                    (case JSONObject_items ds2 of
                                       None \<Rightarrow> None
                                     | Some (pairs, r') \<Rightarrow> Some ((key, v) # pairs, r'))
                                  else None)
                           else None))
               else None))"
proof -
  have guard: "\<And>t v r1. scan_once t = Some (v, r1) \<Longrightarrow> length r1 < length t"
    using scan_lengths(1) by blast
  show ?thesis
    by (subst JSONObject_items.simps)
      (auto split: option.splits list.splits dest: guard)
qed

section \<open>Facts about the violation parser\<close>


lemma parse_ruff_output_decode_error:
  assumes "ruff_stdout \<noteq> []" and "json_loads ruff_stdout = None"
  shows "parse_ruff_output (Some ruff_stdout)
           = ([Log DEBUG (Ruff_stdout (Some ruff_stdout)),
               Log ERROR (Text (u ''Could not parse Ruff output as JSON''))],
              Inl JSONDecodeError)"
  using assms by simp




section \<open>Claims about the changed lines of one file\<close>

text \<open>
  C1. The changed-line set that \<open>parse_modified_lines\<close> computes for a per-file patch
  is exactly the set of target-side line numbers of the line entries that are tagged
  added, whose stripped content is not empty and that carry a target line number. In
  particular, every number in the set comes from an added line that is not
  whitespace-only (so a whitespace-only added line, a removed line and a context line
  contribute nothing, whatever their content), and an added line that is not
  whitespace-only and has a target line number always contributes that number.
\<close>

theorem parse_modified_lines_exact:
  "parse_modified_lines pf = changed_line_set pf
   \<and> (\<forall>n \<in> parse_modified_lines pf.
         \<exists>h \<in> set (hunks pf). \<exists>l \<in> set h.
           target_line_no l = Some n \<and> line_type l = ADDED \<and> \<not> whitespace_only (value l)
           \<and> \<not> is_removed l \<and> \<not> is_context l)
   \<and> (\<forall>h \<in> set (hunks pf). \<forall>l \<in> set h. \<forall>n.
         is_added l \<and> \<not> whitespace_only (value l) \<and> target_line_no l = Some n
         \<longrightarrow> n \<in> parse_modified_lines pf)"
proof (intro conjI)
  show "parse_modified_lines pf = changed_line_set pf"
    by (rule set_eqI) (simp add: parse_modified_lines_mem changed_line_set_def)
next
  show "\<forall>n \<in> parse_modified_lines pf.
         \<exists>h \<in> set (hunks pf). \<exists>l \<in> set h.
           target_line_no l = Some n \<and> line_type l = ADDED \<and> \<not> whitespace_only (value l)
           \<and> \<not> is_removed l \<and> \<not> is_context l"
  proof
    fix n
    assume "n \<in> parse_modified_lines pf"
    then obtain h l where hl: "h \<in> set (hunks pf)" "l \<in> set h" "is_added l"
        "strip (value l) \<noteq> []" "target_line_no l = Some n"
      by (auto simp: parse_modified_lines_mem)
    from hl(3) have "line_type l = ADDED" "\<not> is_removed l" "\<not> is_context l"
      by (simp_all add: is_added_def is_removed_def is_context_def)
    moreover from hl(4) have "\<not> whitespace_only (value l)"
      by (simp add: strip_empty_iff)
    ultimately show "\<exists>h \<in> set (hunks pf). \<exists>l \<in> set h.
           target_line_no l = Some n \<and> line_type l = ADDED \<and> \<not> whitespace_only (value l)
           \<and> \<not> is_removed l \<and> \<not> is_context l"
      using hl(1,2,5) by blast
  qed
next
  show "\<forall>h \<in> set (hunks pf). \<forall>l \<in> set h. \<forall>n.
         is_added l \<and> \<not> whitespace_only (value l) \<and> target_line_no l = Some n
         \<longrightarrow> n \<in> parse_modified_lines pf"
    by (auto simp: parse_modified_lines_mem strip_empty_iff)
qed

theorem parse_modified_lines_exact_witness:
  "parse_modified_lines example_patch = {2} \<and> changed_line_set example_patch = {2}"
proof -
  have computed: "parse_modified_lines example_patch = {2}"
    by (simp add: parse_modified_lines_def example_patch_def example_hunk_def
        is_added_def strip_def lstrip_def rstrip_def isspace_def u_def)
  have "parse_modified_lines example_patch = changed_line_set example_patch"
    using parse_modified_lines_exact [of example_patch] by (rule conjunct1)
  with computed show ?thesis by simp
qed

section \<open>Claims about the resolver\<close>

text \<open>
  C2. Whatever the mode and the parameters, every \<open>git diff\<close> call that
  \<open>parse_git_modified_lines\<close> makes carries the two options
  \<open>ignore_blank_lines=True\<close> and \<open>ignore_space_at_eol=True\<close> and the positional
  arguments of the mode. When the repository is found, it makes exactly one such call:
  in BRANCH mode with the non-empty base branch as the only positional argument, in
  STAGED mode with only \<open>--cached\<close>, in UNSTAGED mode with no positional argument, in
  REF mode with the non-empty reference as the only positional argument.
\<close>

theorem diff_invocation_arguments:
  "(\<forall>c \<in> set (diff_calls (fst (parse_git_modified_lines env mode base_branch diff_ref))).
       kwargs c = [(u ''ignore_blank_lines'', True), (u ''ignore_space_at_eol'', True)]
       \<and> diff_args mode base_branch diff_ref = Inr (args c))
   \<and> (Repo_git_dir env = Inr git_dir \<longrightarrow>
        (b \<noteq> [] \<longrightarrow>
           diff_calls (fst (parse_git_modified_lines env BRANCH (Some b) diff_ref))
             = [\<lparr>args = [b],
                 kwargs = [(u ''ignore_blank_lines'', True), (u ''ignore_space_at_eol'', True)]\<rparr>])
        \<and> diff_calls (fst (parse_git_modified_lines env STAGED base_branch diff_ref))
             = [\<lparr>args = [u ''--cached''],
                 kwargs = [(u ''ignore_blank_lines'', True), (u ''ignore_space_at_eol'', True)]\<rparr>]
        \<and> diff_calls (fst (parse_git_modified_lines env UNSTAGED base_branch diff_ref))
             = [\<lparr>args = [],
                 kwargs = [(u ''ignore_blank_lines'', True), (u ''ignore_space_at_eol'', True)]\<rparr>]
        \<and> (r \<noteq> [] \<longrightarrow>
           diff_calls (fst (parse_git_modified_lines env REF base_branch (Some r)))
             = [\<lparr>args = [r],
                 kwargs = [(u ''ignore_blank_lines'', True), (u ''ignore_space_at_eol'', True)]\<rparr>]))"
proof (intro conjI impI ballI)
  fix c
  assume "c \<in> set (diff_calls (fst (parse_git_modified_lines env mode base_branch diff_ref)))"
  then have "\<exists>a. diff_args mode base_branch diff_ref = Inr a \<and> c = diff_call a"
    by (auto simp: parse_git_modified_lines_def Let_def split: sum.splits if_splits)
  then obtain a where a: "diff_args mode base_branch diff_ref = Inr a" "c = diff_call a"
    by blast
  from a(2) show "kwargs c = [(u ''ignore_blank_lines'', True), (u ''ignore_space_at_eol'', True)]"
    by (simp add: diff_call_def diff_kwargs_def)
  from a show "diff_args mode base_branch diff_ref = Inr (args c)"
    by (simp add: diff_call_def)
next
  assume "Repo_git_dir env = Inr git_dir" "b \<noteq> []"
  then show "diff_calls (fst (parse_git_modified_lines env BRANCH (Some b) diff_ref))
             = [\<lparr>args = [b],
                 kwargs = [(u ''ignore_blank_lines'', True), (u ''ignore_space_at_eol'', True)]\<rparr>]"
    by (simp add: parse_git_modified_lines_def Let_def diff_call_def diff_kwargs_def
        split: sum.splits)
next
  assume "Repo_git_dir env = Inr git_dir"
  then show "diff_calls (fst (parse_git_modified_lines env STAGED base_branch diff_ref))
             = [\<lparr>args = [u ''--cached''],
                 kwargs = [(u ''ignore_blank_lines'', True), (u ''ignore_space_at_eol'', True)]\<rparr>]"
    by (simp add: parse_git_modified_lines_def Let_def diff_call_def diff_kwargs_def
        split: sum.splits)
next
  assume "Repo_git_dir env = Inr git_dir"
  then show "diff_calls (fst (parse_git_modified_lines env UNSTAGED base_branch diff_ref))
             = [\<lparr>args = [],
                 kwargs = [(u ''ignore_blank_lines'', True), (u ''ignore_space_at_eol'', True)]\<rparr>]"
    by (simp add: parse_git_modified_lines_def Let_def diff_call_def diff_kwargs_def
        split: sum.splits)
next
  assume "Repo_git_dir env = Inr git_dir" "r \<noteq> []"
  then show "diff_calls (fst (parse_git_modified_lines env REF base_branch (Some r)))
             = [\<lparr>args = [r],
                 kwargs = [(u ''ignore_blank_lines'', True), (u ''ignore_space_at_eol'', True)]\<rparr>]"
    by (simp add: parse_git_modified_lines_def Let_def diff_call_def diff_kwargs_def
        split: sum.splits)
qed

theorem diff_invocation_arguments_witness:
  "Repo_git_dir example_env = Inr (u ''/repo/.git'')
   \<and> diff_calls (fst (parse_git_modified_lines example_env BRANCH (Some (u ''origin/main'')) None))
       = [\<lparr>args = [u ''origin/main''],
           kwargs = [(u ''ignore_blank_lines'', True), (u ''ignore_space_at_eol'', True)]\<rparr>]
   \<and> diff_calls (fst (parse_git_modified_lines example_env STAGED None None))
       = [\<lparr>args = [u ''--cached''],
           kwargs = [(u ''ignore_blank_lines'', True), (u ''ignore_space_at_eol'', True)]\<rparr>]
   \<and> diff_calls (fst (parse_git_modified_lines example_env UNSTAGED None None))
       = [\<lparr>args = [],
           kwargs = [(u ''ignore_blank_lines'', True), (u ''ignore_space_at_eol'', True)]\<rparr>]
   \<and> diff_calls (fst (parse_git_modified_lines example_env REF None (Some (u ''HEAD~1''))))
       = [\<lparr>args = [u ''HEAD~1''],
           kwargs = [(u ''ignore_blank_lines'', True), (u ''ignore_space_at_eol'', True)]\<rparr>]"
proof -
  have found: "Repo_git_dir example_env = Inr (u ''/repo/.git'')"
    by (simp add: example_env_def)
  have b: "u ''origin/main'' \<noteq> []" and r: "u ''HEAD~1'' \<noteq> []"
    by (simp_all add: u_def)
  show ?thesis
    using diff_invocation_arguments
      [of example_env UNSTAGED None None "u ''/repo/.git''" "u ''origin/main''" "u ''HEAD~1''"]
      found b r
    by blast
qed










section \<open>Claims about the repository path\<close>

text \<open>
  C9. When no repository is found above the working directory,
  \<open>validate_repo_path\<close> logs one error record, which names the working directory, and
  raises \<open>typer.Exit\<close> with status 1, raised \<open>from None\<close> so that the traceback of
  the lookup's exception is suppressed. When a repository is found it returns the
  resolved parent of the repository's metadata directory, and logs nothing.
\<close>

theorem validate_repo_path_outcomes:
  "(Repo_git_dir env = Inl InvalidGitRepositoryError \<longrightarrow>
      fst (validate_repo_path env)
        = [Repo_lookup,
           Log ERROR (Text (u ''Cannot detect repository in '' @ path_str env (cwd env)))]
      \<and> snd (validate_repo_path env) = Inl (Exit 1 True)
      \<and> (\<forall>e. snd (validate_repo_path env) = Inl e \<longrightarrow> exit_code e = 1 \<and> suppress_context e))
   \<and> (Repo_git_dir env = Inr git_dir \<longrightarrow>
      validate_repo_path env = ([Repo_lookup], Inr (resolve env (parent env (Path env git_dir)))))"
  by (simp add: validate_repo_path_def)

theorem validate_repo_path_outcomes_witness:
  "Repo_git_dir env_no_repo = Inl InvalidGitRepositoryError
   \<and> validate_repo_path env_no_repo
       = ([Repo_lookup, Log ERROR (Text (u ''Cannot detect repository in /tmp''))],
          Inl (Exit 1 True))
   \<and> Repo_git_dir example_env = Inr (u ''/repo/.git'')
   \<and> validate_repo_path example_env = ([Repo_lookup], Inr (u ''/repo''))"
proof -
  have none: "Repo_git_dir env_no_repo = Inl InvalidGitRepositoryError"
    by (simp add: env_no_repo_def)
  have found: "Repo_git_dir example_env = Inr (u ''/repo/.git'')"
    by (simp add: example_env_def)
  have "fst (validate_repo_path env_no_repo)
        = [Repo_lookup,
           Log ERROR (Text (u ''Cannot detect repository in ''
             @ path_str env_no_repo (cwd env_no_repo)))]"
    and "snd (validate_repo_path env_no_repo) = Inl (Exit 1 True)"
    using validate_repo_path_outcomes [of env_no_repo] none by simp_all
  then have a: "validate_repo_path env_no_repo
       = ([Repo_lookup, Log ERROR (Text (u ''Cannot detect repository in /tmp''))],
          Inl (Exit 1 True))"
    by (simp add: prod_eq_iff env_no_repo_def example_env_def u_def)
  have "validate_repo_path example_env
      = ([Repo_lookup],
         Inr (resolve example_env (parent example_env (Path example_env (u ''/repo/.git'')))))"
    using validate_repo_path_outcomes [of example_env "u ''/repo/.git''"] found by simp
  then have b: "validate_repo_path example_env = ([Repo_lookup], Inr (u ''/repo''))"
    by (simp add: example_env_def dirname_def u_def)
  from none found a b show ?thesis
    by simp
qed

section \<open>Claims about the violation parser\<close>





text \<open>
  C8. On an absent output (\<open>None\<close>) and on the empty string,
  \<open>parse_ruff_output\<close> returns the empty sequence of violations, after two debug
  records, and raises nothing.
\<close>

theorem parse_ruff_output_empty:
  "parse_ruff_output None
     = ([Log DEBUG (Ruff_stdout None),
         Log DEBUG (Text (u ''No ruff output, assuming no violations''))],
        Inr [])
   \<and> parse_ruff_output (Some [])
     = ([Log DEBUG (Ruff_stdout (Some [])),
         Log DEBUG (Text (u ''No ruff output, assuming no violations''))],
        Inr [])"
  by simp

text \<open>
  C10. An output that is not empty and holds only whitespace is not taken for "no
  output": it goes to the JSON decoder, which refuses it, so the error is logged and
  \<open>JSONDecodeError\<close> is raised instead of the empty sequence being returned. The
  record "No ruff output, assuming no violations" is written for the empty string
  only.
\<close>

theorem parse_ruff_output_whitespace:
  "ruff_stdout \<noteq> [] \<Longrightarrow> whitespace_only ruff_stdout \<Longrightarrow>
     json_loads ruff_stdout = None
     \<and> parse_ruff_output (Some ruff_stdout)
         = ([Log DEBUG (Ruff_stdout (Some ruff_stdout)),
             Log ERROR (Text (u ''Could not parse Ruff output as JSON''))],
            Inl JSONDecodeError)
     \<and> snd (parse_ruff_output (Some ruff_stdout)) \<noteq> Inr []
     \<and> Log DEBUG (Text (u ''No ruff output, assuming no violations''))
          \<notin> set (fst (parse_ruff_output (Some ruff_stdout)))"
proof -
  assume ne: "ruff_stdout \<noteq> []" and ws: "whitespace_only ruff_stdout"
  from ws have bad: "json_loads ruff_stdout = None"
    by (rule json_loads_whitespace)
  from parse_ruff_output_decode_error [OF ne bad] bad show ?thesis
    by simp
qed

theorem parse_ruff_output_whitespace_witness:
  "[32] \<noteq> ([] :: str) \<and> whitespace_only [32] \<and> whitespace_only [10]
   \<and> snd (parse_ruff_output (Some [32])) = Inl JSONDecodeError
   \<and> snd (parse_ruff_output (Some [10])) = Inl JSONDecodeError
   \<and> snd (parse_ruff_output (Some [32])) \<noteq> Inr []"
proof -
  have ws: "whitespace_only [32]" "whitespace_only [10]"
    by (simp_all add: whitespace_only_def isspace_def)
  have ne: "[32] \<noteq> ([] :: str)" "[10] \<noteq> ([] :: str)"
    by simp_all
  from parse_ruff_output_whitespace [OF ne(1) ws(1)]
    parse_ruff_output_whitespace [OF ne(2) ws(2)] ws ne
  show ?thesis
    by simp
qed

end
